theory Spec2Isabelle
  imports Main "HOL-Library.Sublist"
begin

section \<open>Python strings\<close>

text \<open>
  A Python \<open>str\<close> is a sequence of Unicode code points. A code point is a natural number,
  so that the em-dash of the date cells (U+2014), the emoji of the notification and
  non-ASCII whitespace are single characters, as they are for \<open>split\<close>, \<open>strip\<close> and
  \<open>re\<close>. ASCII literals of the source are written \<open>u ''...''\<close>.
\<close>

type_synonym pystr = "nat list"

abbreviation u :: "string \<Rightarrow> pystr" where
  "u s \<equiv> map of_char s"

text \<open>
  \<open>str.isspace\<close> on one character, which is also the class \<open>\s\<close> of \<open>re\<close> on \<open>str\<close>
  patterns: the ASCII controls 9-13 and 28-31, the space, U+0085, U+00A0, U+1680,
  U+2000-U+200A, U+2028, U+2029, U+202F, U+205F and U+3000.
\<close>

definition is_space :: "nat \<Rightarrow> bool" where
  "is_space c \<longleftrightarrow>
     (9 \<le> c \<and> c \<le> 13) \<or> (28 \<le> c \<and> c \<le> 32) \<or> c = 133 \<or> c = 160 \<or> c = 5760 \<or>
     (8192 \<le> c \<and> c \<le> 8202) \<or> c = 8232 \<or> c = 8233 \<or> c = 8239 \<or> c = 8287 \<or> c = 12288"

text \<open>\<open>s.strip()\<close>: leading and trailing whitespace removed.\<close>

definition strip :: "pystr \<Rightarrow> pystr" where
  "strip s = rev (dropWhile is_space (rev (dropWhile is_space s)))"

text \<open>
  \<open>s.split(sep)\<close> for a separator of one character: the pieces between the occurrences
  of the separator, empty pieces included, so that the result has one more element than
  the separator has occurrences.
\<close>

fun split_on :: "nat \<Rightarrow> pystr \<Rightarrow> pystr list" where
  "split_on c [] = [[]]"
| "split_on c (x # xs) =
     (if x = c then [] # split_on c xs
      else (case split_on c xs of
              [] \<Rightarrow> [[x]]
            | p # ps \<Rightarrow> (x # p) # ps))"

text \<open>\<open>str(n)\<close> for an integer: its decimal digits, with a sign when negative.\<close>

function str_nat :: "nat \<Rightarrow> pystr" where
  "str_nat n = (if n < 10 then [48 + n] else str_nat (n div 10) @ [48 + n mod 10])"
  by pat_completeness auto
termination
  by (relation "measure id") auto

definition py_str :: "int \<Rightarrow> pystr" where
  "py_str i = (if i < 0 then of_char CHR ''-'' # str_nat (nat (- i)) else str_nat (nat i))"

declare str_nat.simps [simp del]

text \<open>
  \<open>print(s)\<close> encodes the text for \<open>sys.stdout\<close> and raises \<open>UnicodeEncodeError\<close> when
  a character has no encoding there. That depends on the encoding and the error handler
  of the stream: ASCII is written by every encoding, and which other code points are is
  a parameter. A closed or broken stream is not modelled.
\<close>

type_synonym stdout = "nat \<Rightarrow> bool"

definition can_print :: "stdout \<Rightarrow> pystr \<Rightarrow> bool" where
  "can_print out s \<longleftrightarrow> list_all (\<lambda>c. c < 128 \<or> out c) s"

text \<open>
  A stream with the encoding UTF-8 and the handler \<open>strict\<close>: every code point but the
  surrogates U+D800-U+DFFF.
\<close>

definition utf8_stdout :: stdout where
  "utf8_stdout c \<longleftrightarrow> c < 55296 \<or> 57343 < c"

definition em_dash :: nat where
  "em_dash = 8212"

section \<open>The event record\<close>

record CTFEvent =
  title :: pystr
  start_time :: pystr
  duration :: pystr
  url :: pystr
  format_type :: pystr

section \<open>Parser: the date cell\<close>

text \<open>
  Lines 93-103 of \<open>parse_events\<close>, on the stripped text of the date cell. The duration
  is built only when the split gives exactly two parts; the start text is the first
  part whenever the separator occurs.
\<close>

definition parse_duration :: "pystr \<Rightarrow> pystr" where
  "parse_duration date_text =
     (if em_dash \<in> set date_text then
        (let parts = split_on em_dash date_text in
         if length parts = 2 then
           (let start_part = strip (parts ! 0);
                end_part = strip (parts ! 1)
            in start_part @ u '' to '' @ end_part)
         else u ''Unknown'')
      else u ''Unknown'')"

definition parse_start_time :: "pystr \<Rightarrow> pystr" where
  "parse_start_time date_text =
     (if em_dash \<in> set date_text then strip (split_on em_dash date_text ! 0)
      else date_text)"

section \<open>Character classes of the regular expression\<close>

text \<open>
  The classes \<open>\d\<close> and \<open>\w\<close> of \<open>re\<close> on \<open>str\<close> patterns follow the Unicode database of
  the interpreter: \<open>\d\<close> is the category of decimal digits, \<open>\w\<close> is \<open>str.isalnum\<close> or the
  underscore. On ASCII they are fixed: the digits \<open>0-9\<close>, and the digits, the letters and
  the underscore. Beyond ASCII the database is a parameter: the decimal value of a
  character when it is a decimal digit, and whether a character is alphanumeric.
\<close>

record unicode_db =
  decimal_value :: "nat \<Rightarrow> nat option"
  alnum :: "nat \<Rightarrow> bool"

definition is_digit :: "unicode_db \<Rightarrow> nat \<Rightarrow> bool" where
  "is_digit U c \<longleftrightarrow> (if c < 128 then 48 \<le> c \<and> c \<le> 57 else decimal_value U c \<noteq> None)"

definition digit_val :: "unicode_db \<Rightarrow> nat \<Rightarrow> nat" where
  "digit_val U c =
     (if c < 128 then c - 48 else (case decimal_value U c of Some v \<Rightarrow> v | None \<Rightarrow> 0))"

definition is_word :: "unicode_db \<Rightarrow> nat \<Rightarrow> bool" where
  "is_word U c \<longleftrightarrow>
     (if c < 128 then (48 \<le> c \<and> c \<le> 57) \<or> (65 \<le> c \<and> c \<le> 90) \<or> (97 \<le> c \<and> c \<le> 122) \<or> c = 95
      else alnum U c \<or> decimal_value U c \<noteq> None)"

text \<open>A database with no digit and no letter beyond ASCII, for concrete runs.\<close>

definition ascii_db :: unicode_db where
  "ascii_db = \<lparr>decimal_value = (\<lambda>c. None), alnum = (\<lambda>c. False)\<rparr>"

text \<open>\<open>int(s)\<close> on a string of decimal digits, which is all the filter applies it to.\<close>

definition py_int :: "unicode_db \<Rightarrow> pystr \<Rightarrow> int" where
  "py_int U s = int (foldl (\<lambda>acc c. 10 * acc + digit_val U c) 0 s)"

section \<open>The date pattern\<close>

text \<open>
  \<open>re.search(r'(\d{1,2})\s+(\w+)\.?,?\s*(?:(\d{4}),?)?\s*(\d{1,2}:\d{2})', time_str)\<close>.
  Each piece of the pattern maps the text still to be read to the list of its ways to
  match a prefix of it, in the order in which the backtracking matcher tries them
  (greedy: the longest first), each with the rest of the text. The pattern matches at a
  position where the list of complete matches is not empty, and the match reported is
  the first of that list.
\<close>

text \<open>\<open>\d{1,2}\<close>: two digits, then one digit.\<close>

fun digits_1_2 :: "unicode_db \<Rightarrow> pystr \<Rightarrow> (pystr \<times> pystr) list" where
  "digits_1_2 U (a # b # r) =
     (if is_digit U a \<and> is_digit U b then [([a, b], r), ([a], b # r)]
      else if is_digit U a then [([a], b # r)]
      else [])"
| "digits_1_2 U [a] = (if is_digit U a then [([a], [])] else [])"
| "digits_1_2 U [] = []"

text \<open>
  A greedy repetition of a character class with at least \<open>lo\<close> characters (\<open>\s+\<close>, \<open>\s*\<close>,
  \<open>\w+\<close>): the whole run of the class first, then one character fewer at a time.
\<close>

definition run_splits :: "(nat \<Rightarrow> bool) \<Rightarrow> nat \<Rightarrow> pystr \<Rightarrow> (pystr \<times> pystr) list" where
  "run_splits P lo s =
     map (\<lambda>k. (take k s, drop k s)) (rev [lo ..< Suc (length (takeWhile P s))])"

text \<open>An optional character (\<open>\.?\<close>, \<open>,?\<close>): with it, then without it.\<close>

fun opt_char :: "nat \<Rightarrow> pystr \<Rightarrow> pystr list" where
  "opt_char c [] = [[]]"
| "opt_char c (x # r) = (if x = c then [r, x # r] else [x # r])"

text \<open>
  \<open>(?:(\d{4}),?)?\<close>: four digits and an optional comma, then nothing; in the second case
  group 3 takes no part in the match and is \<open>None\<close>.
\<close>

definition year_opt :: "unicode_db \<Rightarrow> pystr \<Rightarrow> (pystr option \<times> pystr) list" where
  "year_opt U s =
     (if 4 \<le> length s \<and> list_all (is_digit U) (take 4 s)
      then map (\<lambda>r. (Some (take 4 s), r)) (opt_char (of_char CHR '','') (drop 4 s)) @ [(None, s)]
      else [(None, s)])"

text \<open>\<open>(\d{1,2}:\d{2})\<close>.\<close>

fun minutes :: "unicode_db \<Rightarrow> pystr \<Rightarrow> pystr \<Rightarrow> (pystr \<times> pystr) list" where
  "minutes U h (c # a # b # r) =
     (if c = of_char CHR '':'' \<and> is_digit U a \<and> is_digit U b then [(h @ [c, a, b], r)] else [])"
| "minutes U h r = []"

definition time_tok :: "unicode_db \<Rightarrow> pystr \<Rightarrow> (pystr \<times> pystr) list" where
  "time_tok U s = concat (map (\<lambda>(h, r). minutes U h r) (digits_1_2 U s))"

text \<open>The groups of a match: day, month token, year (optional), time.\<close>

type_synonym groups = "pystr \<times> pystr \<times> pystr option \<times> pystr"

definition match_at :: "unicode_db \<Rightarrow> pystr \<Rightarrow> groups list" where
  "match_at U s =
     [(day, month_str, year, time).
        (day, r1) \<leftarrow> digits_1_2 U s,
        (sp1, r2) \<leftarrow> run_splits is_space 1 r1,
        (month_str, r3) \<leftarrow> run_splits (is_word U) 1 r2,
        r4 \<leftarrow> opt_char (of_char CHR ''.'') r3,
        r5 \<leftarrow> opt_char (of_char CHR '','') r4,
        (sp2, r6) \<leftarrow> run_splits is_space 0 r5,
        (year, r7) \<leftarrow> year_opt U r6,
        (sp3, r8) \<leftarrow> run_splits is_space 0 r7,
        (time, r9) \<leftarrow> time_tok U r8]"

text \<open>\<open>re.search\<close>: the first match at the leftmost position that has one.\<close>

fun re_search :: "unicode_db \<Rightarrow> pystr \<Rightarrow> groups option" where
  "re_search U [] = (case match_at U [] of g # _ \<Rightarrow> Some g | [] \<Rightarrow> None)"
| "re_search U (c # cs) = (case match_at U (c # cs) of g # _ \<Rightarrow> Some g | [] \<Rightarrow> re_search U cs)"

section \<open>Calendar dates\<close>

text \<open>
  \<open>datetime(year, month, day)\<close> raises \<open>ValueError\<close> unless the year is in 1..9999, the
  month in 1..12 and the day in 1..the number of days of the month; dates compare as
  the triples (year, month, day).
\<close>

datatype py_error = ValueError | OverflowError | UnicodeEncodeError

datatype date = Date (d_year: int) (d_month: int) (d_day: int)

definition is_leap :: "int \<Rightarrow> bool" where
  "is_leap y \<longleftrightarrow> y mod 4 = 0 \<and> (y mod 100 \<noteq> 0 \<or> y mod 400 = 0)"

definition days_in_month :: "int \<Rightarrow> int \<Rightarrow> int" where
  "days_in_month y m =
     (if m = 2 then (if is_leap y then 29 else 28)
      else if m = 4 \<or> m = 6 \<or> m = 9 \<or> m = 11 then 30
      else 31)"

definition datetime_date :: "int \<Rightarrow> int \<Rightarrow> int \<Rightarrow> py_error + date" where
  "datetime_date y m d =
     (if 1 \<le> y \<and> y \<le> 9999 \<and> 1 \<le> m \<and> m \<le> 12 \<and> 1 \<le> d \<and> d \<le> days_in_month y m
      then Inr (Date y m d) else Inl ValueError)"

definition date_lt :: "date \<Rightarrow> date \<Rightarrow> bool" where
  "date_lt a b \<longleftrightarrow>
     d_year a < d_year b \<or>
     (d_year a = d_year b \<and>
        (d_month a < d_month b \<or> (d_month a = d_month b \<and> d_day a < d_day b)))"

definition date_le :: "date \<Rightarrow> date \<Rightarrow> bool" where
  "date_le a b \<longleftrightarrow> date_lt a b \<or> a = b"

text \<open>
  \<open>now + timedelta(days=7)\<close>: the date seven days later, \<open>OverflowError\<close> when it lies
  beyond the year 9999.
\<close>

definition next_day :: "date \<Rightarrow> date" where
  "next_day d =
     (if d_day d < days_in_month (d_year d) (d_month d)
        then Date (d_year d) (d_month d) (d_day d + 1)
      else if d_month d < 12 then Date (d_year d) (d_month d + 1) 1
      else Date (d_year d + 1) 1 1)"

fun add_days :: "nat \<Rightarrow> date \<Rightarrow> date" where
  "add_days 0 d = d"
| "add_days (Suc n) d = add_days n (next_day d)"

definition plus_days :: "date \<Rightarrow> nat \<Rightarrow> py_error + date" where
  "plus_days d n =
     (let r = add_days n d in if 9999 < d_year r then Inl OverflowError else Inr r)"

section \<open>Filter\<close>

definition month_names :: "(pystr \<times> int) list" where
  "month_names =
     [(u ''Jan'', 1), (u ''Feb'', 2), (u ''Mar'', 3), (u ''Apr'', 4), (u ''May'', 5),
      (u ''Jun'', 6), (u ''Jul'', 7), (u ''Aug'', 8), (u ''Sep'', 9), (u ''Oct'', 10),
      (u ''Nov'', 11), (u ''Dec'', 12)]"

text \<open>\<open>month_names.get(month_str[:3], 1)\<close>.\<close>

definition month_number :: "pystr \<Rightarrow> int" where
  "month_number month_str =
     (case map_of month_names (take 3 month_str) of Some m \<Rightarrow> m | None \<Rightarrow> 1)"

text \<open>
  Lines 144-150: the year of the event. \<open>today\<close> is \<open>now.date()\<close>. The source keeps the
  year as a string and converts it back with \<open>int\<close>; the model keeps the number.
\<close>

definition resolve_year :: "unicode_db \<Rightarrow> date \<Rightarrow> int \<Rightarrow> pystr \<Rightarrow> pystr option \<Rightarrow> py_error + int" where
  "resolve_year U today month day year =
     (case year of
        None \<Rightarrow>
          (let current_year = d_year today in
           case datetime_date current_year month (py_int U day) of
             Inl e \<Rightarrow> Inl e
           | Inr event_date_this_year \<Rightarrow>
               if date_lt event_date_this_year today then Inr (current_year + 1)
               else Inr current_year)
      | Some y \<Rightarrow> Inr (py_int U y))"

text \<open>
  Lines 126-152: the date of the event from its start text. \<open>Inr None\<close> when the pattern
  does not match (no date, no exception), \<open>Inl e\<close> when the body of the \<open>try\<close> raises.
\<close>

definition event_date :: "unicode_db \<Rightarrow> date \<Rightarrow> pystr \<Rightarrow> py_error + date option" where
  "event_date U today time_str =
     (case re_search U time_str of
        None \<Rightarrow> Inr None
      | Some (day, month_str, year, time) \<Rightarrow>
          (let month = month_number month_str in
           case resolve_year U today month day year of
             Inl e \<Rightarrow> Inl e
           | Inr y \<Rightarrow>
               (case datetime_date y month (py_int U day) of
                  Inl e \<Rightarrow> Inl e
                | Inr d \<Rightarrow> Inr (Some d))))"

text \<open>\<open>str(d)\<close> of a date: \<open>YYYY-MM-DD\<close>.\<close>

definition zfill :: "nat \<Rightarrow> pystr \<Rightarrow> pystr" where
  "zfill n s = replicate (n - length s) 48 @ s"

definition date_str :: "date \<Rightarrow> pystr" where
  "date_str d =
     zfill 4 (str_nat (nat (d_year d))) @ u ''-'' @ zfill 2 (str_nat (nat (d_month d))) @ u ''-'' @
     zfill 2 (str_nat (nat (d_day d)))"

text \<open>
  Lines 124-159, the body of the \<open>try\<close> for one event, with its diagnostic output. It
  gives the list of retained events as it stands when the body ends, and the exception
  when the body ends by one: the \<open>print\<close> of line 127 comes before the match, the
  \<open>print\<close> of lines 157 and 159 after the event is appended or not (10003 and 10007
  are the check mark and the cross of these lines, 39 is the quote).
\<close>

definition try_body ::
  "unicode_db \<Rightarrow> stdout \<Rightarrow> date \<Rightarrow> date \<Rightarrow> CTFEvent list \<Rightarrow> CTFEvent \<Rightarrow> CTFEvent list \<times> py_error option" where
  "try_body U out today week_end upcoming_events event =
     (let time_str = start_time event in
      if \<not> can_print out (u ''Parsing time string: '' @ [39] @ time_str @ [39])
      then (upcoming_events, Some UnicodeEncodeError)
      else
        (case event_date U today time_str of
           Inl e \<Rightarrow> (upcoming_events, Some e)
         | Inr None \<Rightarrow> (upcoming_events, None)
         | Inr (Some d) \<Rightarrow>
             if date_le today d \<and> date_le d week_end
             then (upcoming_events @ [event],
                   if can_print out
                        ([10003] @ u '' Added CTF: '' @ title event @ u '' on '' @ date_str d)
                   then None else Some UnicodeEncodeError)
             else (upcoming_events,
                   if can_print out
                        ([10007] @ u '' Skipped CTF: '' @ title event @ u '' on '' @ date_str d @
                         u '' (outside range)'')
                   then None else Some UnicodeEncodeError)))"

text \<open>
  The text that the handler of line 162 prints before the message of the exception. The
  message is ASCII for the exceptions of the body (the \<open>ValueError\<close> of \<open>datetime\<close>, and
  \<open>UnicodeEncodeError\<close>, which escapes the character), so the \<open>print\<close> of the handler
  raises exactly when this text cannot be printed.
\<close>

definition handler_text :: "CTFEvent \<Rightarrow> pystr" where
  "handler_text event = u ''Error parsing event time '' @ [39] @ start_time event @ [39] @ u '': ''"

text \<open>
  The loop of \<open>filter_upcoming_week_events\<close>. After an exception in the body the handler
  prints and goes on with the next event; an exception of the \<open>print\<close> of the handler
  leaves the function.
\<close>

fun filter_loop ::
  "unicode_db \<Rightarrow> stdout \<Rightarrow> date \<Rightarrow> date \<Rightarrow> CTFEvent list \<Rightarrow> CTFEvent list \<Rightarrow> py_error + CTFEvent list" where
  "filter_loop U out today week_end upcoming_events [] = Inr upcoming_events"
| "filter_loop U out today week_end upcoming_events (event # events) =
     (case try_body U out today week_end upcoming_events event of
        (upcoming_events', None) \<Rightarrow> filter_loop U out today week_end upcoming_events' events
      | (upcoming_events', Some e) \<Rightarrow>
          if can_print out (handler_text event)
          then filter_loop U out today week_end upcoming_events' events
          else Inl UnicodeEncodeError)"

text \<open>
  \<open>week_end\<close> is computed before the loop and outside the \<open>try\<close>, so its
  \<open>OverflowError\<close> leaves the function. The \<open>print\<close> of line 121 writes two dates,
  which are ASCII.
\<close>

definition filter_upcoming_week_events ::
  "unicode_db \<Rightarrow> stdout \<Rightarrow> date \<Rightarrow> CTFEvent list \<Rightarrow> py_error + CTFEvent list" where
  "filter_upcoming_week_events U out today events =
     (case plus_days today 7 of
        Inl e \<Rightarrow> Inl e
      | Inr week_end \<Rightarrow> filter_loop U out today week_end [] events)"

text \<open>
  The window test of line 155 on the date of an event, as a predicate on events: the
  start text resolves to a date \<open>d\<close> with \<open>today \<le> d \<le> week_end\<close>.
\<close>

definition in_window :: "unicode_db \<Rightarrow> date \<Rightarrow> date \<Rightarrow> CTFEvent \<Rightarrow> bool" where
  "in_window U today week_end event =
     (case event_date U today (start_time event) of
        Inr (Some d) \<Rightarrow> date_le today d \<and> date_le d week_end
      | _ \<Rightarrow> False)"

text \<open>
  A time token of the shape \<open>H:MM\<close>: a digit, a colon and two digits. A token \<open>HH:MM\<close>
  ends with one, so a text has a token of either shape exactly when some position of it
  starts a token \<open>H:MM\<close>.
\<close>

fun time_prefix :: "unicode_db \<Rightarrow> pystr \<Rightarrow> bool" where
  "time_prefix U (h # c # a # b # r) \<longleftrightarrow>
     is_digit U h \<and> c = of_char CHR '':'' \<and> is_digit U a \<and> is_digit U b"
| "time_prefix U s \<longleftrightarrow> False"

fun has_time_token :: "unicode_db \<Rightarrow> pystr \<Rightarrow> bool" where
  "has_time_token U [] \<longleftrightarrow> False"
| "has_time_token U (x # xs) \<longleftrightarrow> time_prefix U (x # xs) \<or> has_time_token U xs"

text \<open>A run of four decimal digits somewhere in the text.\<close>

fun has_four_digits :: "unicode_db \<Rightarrow> pystr \<Rightarrow> bool" where
  "has_four_digits U [] \<longleftrightarrow> False"
| "has_four_digits U (x # xs) \<longleftrightarrow>
     (4 \<le> length (x # xs) \<and> list_all (is_digit U) (take 4 (x # xs))) \<or> has_four_digits U xs"

text \<open>An event with the given start text, for concrete runs of the filter.\<close>

definition sample_event :: "pystr \<Rightarrow> CTFEvent" where
  "sample_event s =
     \<lparr>title = u ''Sample CTF'', start_time = s, duration = u ''Unknown'',
      url = u ''https://ctftime.org/event/1'', format_type = u ''Jeopardy''\<rparr>"

section \<open>Parser: the rows of the table\<close>

text \<open>
  The tree that \<open>BeautifulSoup(html, 'html.parser')\<close> builds: a tag has a name, the
  dictionary of its attributes (an association list with distinct keys; every value of
  \<open>href\<close> is a string) and its children; a \<open>NavigableString\<close> is a piece of text.
  Comments and the other special strings are neither found by \<open>find_all\<close> nor part of
  \<open>text\<close>, and are left out of the tree.
\<close>

datatype node =
    Tag (tag_name: pystr) (attrs: "(pystr \<times> pystr) list") (contents: "node list")
  | NavigableString pystr

text \<open>A node followed by its descendants, in document order.\<close>

fun subtree :: "node \<Rightarrow> node list" where
  "subtree (NavigableString s) = [NavigableString s]"
| "subtree (Tag n a cs) = Tag n a cs # concat (map subtree cs)"

definition descendants :: "node \<Rightarrow> node list" where
  "descendants n = tl (subtree n)"

fun is_tag :: "pystr \<Rightarrow> node \<Rightarrow> bool" where
  "is_tag name (Tag n a cs) \<longleftrightarrow> n = name"
| "is_tag name (NavigableString s) \<longleftrightarrow> False"

text \<open>\<open>tag.find_all(name)\<close>: the descendants with that tag name, in document order.\<close>

definition find_all :: "pystr \<Rightarrow> node \<Rightarrow> node list" where
  "find_all name n = filter (is_tag name) (descendants n)"

text \<open>\<open>tag.find(name)\<close>: the first of them, or \<open>None\<close>.\<close>

definition find_node :: "pystr \<Rightarrow> node \<Rightarrow> node option" where
  "find_node name n = (case find_all name n of [] \<Rightarrow> None | x # _ \<Rightarrow> Some x)"

text \<open>\<open>tag.text\<close>: the strings below the tag, concatenated.\<close>

fun get_text :: "node \<Rightarrow> pystr" where
  "get_text (NavigableString s) = s"
| "get_text (Tag n a cs) = concat (map get_text cs)"

text \<open>\<open>tag.get(key, default)\<close>.\<close>

fun get_attr :: "node \<Rightarrow> pystr \<Rightarrow> pystr \<Rightarrow> pystr" where
  "get_attr (Tag n a cs) key dflt = (case map_of a key of Some v \<Rightarrow> v | None \<Rightarrow> dflt)"
| "get_attr (NavigableString s) key dflt = dflt"

definition base_url :: pystr where
  "base_url = u ''https://ctftime.org''"

definition events_url :: pystr where
  "events_url = base_url @ u ''/event/list/upcoming''"

text \<open>
  The body of the loop of \<open>parse_events\<close> (lines 71-105) on one row: \<open>None\<close> is
  \<open>continue\<close>, \<open>Some e\<close> is the event appended. With at least four cells the indices 0,
  1 and 2 are in range, and nothing up to the append raises. The \<open>print\<close> of line 106
  follows the append, and the handler of line 108 prints only the message of the
  exception, which is ASCII, and goes on: the diagnostic output changes no result and
  is left out.
\<close>

definition parse_row :: "node \<Rightarrow> CTFEvent option" where
  "parse_row row =
     (let cells = find_all (u ''td'') row in
      if length cells < 4 then None
      else
        (let title_cell = cells ! 0 in
         case find_node (u ''a'') title_cell of
           None \<Rightarrow> None
         | Some title_link \<Rightarrow>
             (let event_title = strip (get_text title_link);
                  event_url = base_url @ get_attr title_link (u ''href'') [];
                  date_text = strip (get_text (cells ! 1));
                  event_format = strip (get_text (cells ! 2))
              in Some \<lparr>title = event_title, start_time = parse_start_time date_text,
                       duration = parse_duration date_text, url = event_url,
                       format_type = event_format\<rparr>)))"

fun parse_rows :: "CTFEvent list \<Rightarrow> node list \<Rightarrow> CTFEvent list" where
  "parse_rows events [] = events"
| "parse_rows events (row # rows) =
     (case parse_row row of
        None \<Rightarrow> parse_rows events rows
      | Some e \<Rightarrow> parse_rows (events @ [e]) rows)"

text \<open>
  \<open>parse_events\<close> from the table that \<open>soup.find('table', class_='table table-striped')\<close>
  finds, \<open>None\<close> when there is none: the rows are the \<open>tr\<close> below the first \<open>tbody\<close>, or
  all \<open>tr\<close> but the first when the table has no \<open>tbody\<close>.
\<close>

definition table_rows :: "node \<Rightarrow> node list" where
  "table_rows table =
     (case find_node (u ''tbody'') table of
        Some tbody \<Rightarrow> find_all (u ''tr'') tbody
      | None \<Rightarrow> drop 1 (find_all (u ''tr'') table))"

definition parse_events :: "node option \<Rightarrow> CTFEvent list" where
  "parse_events table =
     (case table of
        None \<Rightarrow> []
      | Some t \<Rightarrow> parse_rows [] (table_rows t))"

section \<open>Fetcher\<close>





section \<open>Notifier\<close>

record embed_field =
  field_name :: pystr
  field_value :: pystr
  inline :: bool

record embed =
  embed_title :: pystr
  embed_description :: pystr
  embed_color :: nat
  embed_fields :: "embed_field list"
  embed_footer :: pystr

text \<open>The field of one event (lines 211-215); 127919 is the emoji of the field name.\<close>

definition event_field :: "CTFEvent \<Rightarrow> embed_field" where
  "event_field event =
     \<lparr>field_name = [127919, 32] @ title event,
      field_value =
        u ''**Start:** '' @ start_time event @ [10] @
        u ''**Duration:** '' @ duration event @ [10] @
        u ''**Format:** '' @ format_type event @ [10] @
        u ''[Event Link]('' @ url event @ u '')'',
      inline = False\<rparr>"

text \<open>The note of lines 218-222 for \<open>n\<close> events.\<close>

definition note_field :: "nat \<Rightarrow> embed_field" where
  "note_field n =
     \<lparr>field_name = [128221, 32] @ u ''Note'',
      field_value =
        u ''And '' @ py_str (int n - 10) @ u '' more CTFs! Check [CTFTime]('' @ events_url @
        u '') for the full list.'',
      inline = False\<rparr>"

text \<open>\<open>embed.add_field\<close> appends a field.\<close>

definition add_field :: "embed \<Rightarrow> embed_field \<Rightarrow> embed" where
  "add_field e f = e\<lparr>embed_fields := embed_fields e @ [f]\<rparr>"

fun add_event_fields :: "embed \<Rightarrow> CTFEvent list \<Rightarrow> embed" where
  "add_event_fields e [] = e"
| "add_event_fields e (event # events) = add_event_fields (add_field e (event_field event)) events"

text \<open>
  The embed that \<open>send_ctf_notification\<close> sends (lines 203-226), without its
  timestamp.
\<close>

definition send_ctf_notification :: "CTFEvent list \<Rightarrow> embed" where
  "send_ctf_notification events =
     (let e0 = \<lparr>embed_title = [128681, 32] @ u ''Upcoming CTFs This Week'',
                embed_description = u ''Here are the CTFs happening in the next 7 days!'',
                embed_color = 65280, embed_fields = [], embed_footer = []\<rparr>;
          e1 = add_event_fields e0 (take 10 events);
          e2 = (if 10 < length events then add_field e1 (note_field (length events)) else e1)
      in e2\<lparr>embed_footer := u ''CTF Time Bot '' @ [8226] @ u '' Next 7 Days''\<rparr>)"

text \<open>A row of the events table and the header row of the table, for concrete runs.\<close>

definition sample_row :: node where
  "sample_row =
     Tag (u ''tr'') []
       [Tag (u ''td'') []
          [Tag (u ''a'') [(u ''href'', u ''/event/2800'')] [NavigableString (u ''Alpha CTF'')]],
        Tag (u ''td'') []
          [NavigableString (u ''20 Aug., 10:00 UTC '' @ em_dash # u '' 22 Aug. 2025, 10:00 UTC'')],
        Tag (u ''td'') [] [NavigableString (u ''On-line'')],
        Tag (u ''td'') [] [NavigableString (u '' '')]]"

definition header_row :: node where
  "header_row =
     Tag (u ''tr'') []
       [Tag (u ''th'') [] [NavigableString (u ''Name'')],
        Tag (u ''th'') [] [NavigableString (u ''Date'')],
        Tag (u ''th'') [] [NavigableString (u ''Format'')],
        Tag (u ''th'') [] [NavigableString (u ''Location'')]]"

section \<open>Properties of the date cell\<close>















section \<open>Properties of the filter\<close>

lemmas re_defs =
  match_at_def run_splits_def is_digit_def is_space_def is_word_def year_opt_def time_tok_def

lemmas date_defs =
  month_number_def month_names_def resolve_year_def py_int_def digit_val_def datetime_date_def
  days_in_month_def date_lt_def date_le_def is_leap_def

subsection \<open>What a match of the pattern needs\<close>

lemma digits_1_2_suffix: "(d, r) \<in> set (digits_1_2 U s) \<Longrightarrow> suffix r s"
  by (induction U s rule: digits_1_2.induct) (auto simp: suffix_def split: if_splits)

lemma run_splits_suffix: "(a, r) \<in> set (run_splits P lo s) \<Longrightarrow> suffix r s"
  by (auto simp: run_splits_def suffix_drop)

lemma opt_char_suffix: "r \<in> set (opt_char c s) \<Longrightarrow> suffix r s"
  by (cases s) (auto simp: suffix_def split: if_splits)

lemma year_opt_suffix: "(y, r) \<in> set (year_opt U s) \<Longrightarrow> suffix r s"
  by (auto simp: year_opt_def split: if_splits dest!: opt_char_suffix intro: suffix_order.trans [OF _ suffix_drop])

lemma minutes_time: "(t, r') \<in> set (minutes U h r) \<Longrightarrow> \<exists>c a b. r = c # a # b # r' \<and> c = of_char CHR '':'' \<and> is_digit U a \<and> is_digit U b"
  by (induction U h r rule: minutes.induct) (auto split: if_splits)

lemma time_tok_has: "(t, r) \<in> set (time_tok U s) \<Longrightarrow> has_time_token U s"
  by (induction U s rule: digits_1_2.induct) (auto simp: time_tok_def split: if_splits dest!: minutes_time)

lemma has_time_token_suffix: "suffix r s \<Longrightarrow> has_time_token U r \<Longrightarrow> has_time_token U s"
  by (induction s) (auto simp: suffix_Cons)

lemma match_at_time:
  assumes "g \<in> set (match_at U s)"
  shows "has_time_token U s"
proof -
  from assms obtain day r1 sp1 r2 m r3 r4 r5 sp2 r6 y r7 sp3 r8 t r9 where
    s: "(day, r1) \<in> set (digits_1_2 U s)" "(sp1, r2) \<in> set (run_splits is_space 1 r1)"
       "(m, r3) \<in> set (run_splits (is_word U) 1 r2)" "r4 \<in> set (opt_char (of_char CHR ''.'') r3)"
       "r5 \<in> set (opt_char (of_char CHR '','') r4)" "(sp2, r6) \<in> set (run_splits is_space 0 r5)"
       "(y, r7) \<in> set (year_opt U r6)" "(sp3, r8) \<in> set (run_splits is_space 0 r7)"
       "(t, r9) \<in> set (time_tok U r8)"
    unfolding match_at_def by fastforce
  have "suffix r8 s"
    using s digits_1_2_suffix run_splits_suffix opt_char_suffix year_opt_suffix
    by (meson suffix_order.trans)
  then show ?thesis
    using time_tok_has [OF s(9)] has_time_token_suffix by blast
qed

lemma match_at_nonempty_time: "match_at U s \<noteq> [] \<Longrightarrow> has_time_token U s"
  using match_at_time [of "hd (match_at U s)" U s] by simp

lemma re_search_time: "re_search U s = Some g \<Longrightarrow> has_time_token U s"
proof (induction s)
  case Nil
  then show ?case
    using match_at_nonempty_time [of U "[]"] by (auto split: list.splits)
next
  case (Cons c cs)
  then show ?case
    using match_at_nonempty_time [of U "c # cs"] by (auto split: list.splits)
qed

lemma year_opt_Some:
  "(Some y, r) \<in> set (year_opt U s) \<Longrightarrow> has_four_digits U s"
  by (cases s) (auto simp: year_opt_def split: if_splits)

lemma has_four_digits_suffix: "suffix r s \<Longrightarrow> has_four_digits U r \<Longrightarrow> has_four_digits U s"
  by (induction s) (auto simp: suffix_Cons)

lemma match_at_year:
  assumes "(day, month_str, Some y, tm) \<in> set (match_at U s)"
  shows "has_four_digits U s"
proof -
  from assms obtain r1 sp1 r2 r3 r4 r5 sp2 r6 r7 where
    s: "(day, r1) \<in> set (digits_1_2 U s)" "(sp1, r2) \<in> set (run_splits is_space 1 r1)"
       "(month_str, r3) \<in> set (run_splits (is_word U) 1 r2)"
       "r4 \<in> set (opt_char (of_char CHR ''.'') r3)"
       "r5 \<in> set (opt_char (of_char CHR '','') r4)" "(sp2, r6) \<in> set (run_splits is_space 0 r5)"
       "(Some y, r7) \<in> set (year_opt U r6)"
    unfolding match_at_def by fastforce
  have "suffix r6 s"
    using s digits_1_2_suffix run_splits_suffix opt_char_suffix
    by (meson suffix_order.trans)
  then show ?thesis
    using year_opt_Some [OF s(7)] has_four_digits_suffix by blast
qed

lemma re_search_mem: "re_search U s = Some g \<Longrightarrow> \<exists>r. suffix r s \<and> g \<in> set (match_at U r)"
proof (induction s)
  case Nil
  then show ?case
    by (auto split: list.splits)
next
  case (Cons c cs)
  show ?case
  proof (cases "match_at U (c # cs)")
    case Nil
    with Cons obtain r where "suffix r cs" "g \<in> set (match_at U r)"
      by auto
    then show ?thesis
      by (auto simp: suffix_Cons)
  next
    case (Cons g' gs)
    with Cons.prems have "g \<in> set (match_at U (c # cs))"
      by simp
    then show ?thesis
      by blast
  qed
qed

lemma re_search_year:
  "re_search U s = Some (day, month_str, Some y, tm) \<Longrightarrow> has_four_digits U s"
  using re_search_mem match_at_year has_four_digits_suffix by blast

subsection \<open>The loop\<close>

text \<open>
  The function returns exactly when \<open>week_end\<close> is a date and every start text can be
  printed; it then returns the events in the window, in their order.
\<close>

lemma can_print_line_127:
  "can_print out (u ''Parsing time string: '' @ [39] @ s @ [39]) \<longleftrightarrow> can_print out s"
  by (simp add: can_print_def)

lemma can_print_handler_text [simp]:
  "can_print out (handler_text event) \<longleftrightarrow> can_print out (start_time event)"
  by (simp add: handler_text_def can_print_def)

lemma try_body_unprintable:
  "\<not> can_print out (start_time event) \<Longrightarrow>
     try_body U out today week_end acc event = (acc, Some UnicodeEncodeError)"
  unfolding try_body_def Let_def can_print_line_127 by simp

lemma try_body_printable:
  "can_print out (start_time event) \<Longrightarrow>
     fst (try_body U out today week_end acc event) =
       (if in_window U today week_end event then acc @ [event] else acc)"
  unfolding try_body_def Let_def can_print_line_127 in_window_def
  by (simp split: sum.splits option.splits)

lemma filter_loop_filter:
  "filter_loop U out today week_end acc events =
     (if list_all (\<lambda>e. can_print out (start_time e)) events
      then Inr (acc @ filter (in_window U today week_end) events)
      else Inl UnicodeEncodeError)"
proof (induction events arbitrary: acc)
  case Nil
  then show ?case by simp
next
  case (Cons event events)
  show ?case
  proof (cases "can_print out (start_time event)")
    case False
    then show ?thesis
      by (simp add: try_body_unprintable)
  next
    case True
    obtain acc' exc where t: "try_body U out today week_end acc event = (acc', exc)"
      by (cases "try_body U out today week_end acc event") auto
    with try_body_printable [OF True, of U today week_end acc]
    have acc': "acc' = (if in_window U today week_end event then acc @ [event] else acc)"
      by simp
    show ?thesis
      using True t acc' Cons.IH [of acc'] by (cases exc) auto
  qed
qed

lemma filter_upcoming_week_events_filter:
  "plus_days today 7 = Inr week_end \<Longrightarrow>
     filter_upcoming_week_events U out today events =
       (if list_all (\<lambda>e. can_print out (start_time e)) events
        then Inr (filter (in_window U today week_end) events)
        else Inl UnicodeEncodeError)"
  by (simp add: filter_upcoming_week_events_def filter_loop_filter)

lemma add_days_7: "add_days 7 d = next_day (next_day (next_day (next_day (next_day (next_day (next_day d))))))"
  by (simp add: numeral_eq_Suc)

lemma week_2025_08_15: "plus_days (Date 2025 8 15) 7 = Inr (Date 2025 8 22)"
  by (simp add: plus_days_def add_days_7 next_day_def days_in_month_def is_leap_def)

lemma no_time_token_no_match: "\<not> has_time_token U s \<Longrightarrow> re_search U s = None"
  using re_search_time [of U s] by (cases "re_search U s") auto

lemma event_date_explicit_year:
  "re_search U s = Some (day, month_str, Some y, tm) \<Longrightarrow>
     event_date U today s =
       (case datetime_date (py_int U y) (month_number month_str) (py_int U day) of
          Inl e \<Rightarrow> Inl e
        | Inr d \<Rightarrow> Inr (Some d))"
  by (simp add: event_date_def resolve_year_def)

lemma in_window_iff:
  "in_window U today week_end e \<longleftrightarrow>
     (\<exists>d. event_date U today (start_time e) = Inr (Some d) \<and>
          date_le today d \<and> date_le d week_end)"
  by (auto simp: in_window_def split: sum.splits option.splits)

lemma not_in_window_failed:
  "re_search U (start_time e) = None \<or> (\<exists>err. event_date U today (start_time e) = Inl err) \<Longrightarrow>
     \<not> in_window U today week_end e"
  by (auto simp: in_window_def event_date_def)

lemma filter_result_in_window:
  assumes "filter_upcoming_week_events U out today events = Inr r"
  shows "\<exists>week_end. plus_days today 7 = Inr week_end \<and> r = filter (in_window U today week_end) events"
proof (cases "plus_days today 7")
  case (Inl e)
  with assms show ?thesis
    by (simp add: filter_upcoming_week_events_def)
next
  case (Inr week_end)
  with assms show ?thesis
    by (simp add: filter_upcoming_week_events_filter split: if_splits)
qed

text \<open>\<open>now + timedelta(days=7)\<close> is a date for every \<open>now\<close> before the year 9999.\<close>

lemma next_day_year: "d_year (next_day d) = d_year d \<or> next_day d = Date (d_year d + 1) 1 1"
  by (simp add: next_day_def)

lemma add_days_january:
  "k + int n \<le> 31 \<Longrightarrow> 1 \<le> k \<Longrightarrow> add_days n (Date y 1 k) = Date y 1 (k + int n)"
proof (induction n arbitrary: k)
  case 0
  then show ?case by simp
next
  case (Suc n)
  then have "next_day (Date y 1 k) = Date y 1 (k + 1)"
    by (simp add: next_day_def days_in_month_def)
  with Suc show ?case
    by simp
qed

lemma add_days_year: "n \<le> 30 \<Longrightarrow> d_year (add_days n d) \<le> d_year d + 1"
proof (induction n arbitrary: d)
  case 0
  then show ?case by simp
next
  case (Suc n)
  from next_day_year [of d] show ?case
  proof
    assume "d_year (next_day d) = d_year d"
    with Suc show ?thesis
      by (metis Suc_leD add_days.simps(2))
  next
    assume "next_day d = Date (d_year d + 1) 1 1"
    with Suc.prems show ?thesis
      by (simp add: add_days_january)
  qed
qed

lemma plus_days_7_total: "d_year today \<le> 9998 \<Longrightarrow> \<exists>week_end. plus_days today 7 = Inr week_end"
  using add_days_year [of 7 today] by (simp add: plus_days_def Let_def)

text \<open>
  The resolution of the date raises only \<open>ValueError\<close>, and exactly when the pattern
  matches and the year, the month and the day are not a calendar date.
\<close>

lemma datetime_date_error: "datetime_date y m d = Inl err \<Longrightarrow> err = ValueError"
  by (simp add: datetime_date_def split: if_splits)

lemma resolve_year_error: "resolve_year U today m day year = Inl err \<Longrightarrow> err = ValueError"
  by (auto simp: resolve_year_def Let_def split: option.splits sum.splits if_splits
      dest: datetime_date_error)

lemma event_date_error: "event_date U today s = Inl err \<Longrightarrow> err = ValueError"
  by (auto simp: event_date_def Let_def split: option.splits sum.splits prod.splits
      dest: datetime_date_error resolve_year_error)

lemma event_date_raises_iff:
  "(\<exists>err. event_date U today s = Inl err) \<longleftrightarrow>
     (\<exists>day month_str year tm.
        re_search U s = Some (day, month_str, year, tm) \<and>
        (\<forall>y. resolve_year U today (month_number month_str) day year = Inr y \<longrightarrow>
             datetime_date y (month_number month_str) (py_int U day) = Inl ValueError))"
proof (cases "re_search U s")
  case None
  then show ?thesis
    by (simp add: event_date_def)
next
  case (Some g)
  obtain day month_str year tm where g: "g = (day, month_str, year, tm)"
    by (cases g) auto
  show ?thesis
  proof (cases "resolve_year U today (month_number month_str) day year")
    case (Inl e)
    with Some g show ?thesis
      by (simp add: event_date_def)
  next
    case (Inr y)
    with Some g show ?thesis
      by (cases "datetime_date y (month_number month_str) (py_int U day)")
        (auto simp: event_date_def dest: datetime_date_error)
  qed
qed

text \<open>
  C2. When \<open>week_end\<close>, the seventh day after \<open>today\<close>, is a date (every \<open>today\<close>
  before the year 9999) and every start text can be printed on \<open>stdout\<close>,
  \<open>filter_upcoming_week_events\<close> returns exactly the events whose start text resolves
  to a date \<open>d\<close> with \<open>today \<le> d \<le> week_end\<close>, both ends included, in the order of the
  input: the input filtered by that test, a subsequence of it. A start text with a year
  resolves with that year. When a start text cannot be printed the function raises
  \<open>UnicodeEncodeError\<close> and returns no list: with today = 2025-08-15 and a UTF-8
  \<open>stdout\<close>, the events \<open>20 Aug., 10:00 UTC\<close> and U+D800 \<open> TBA\<close> give the exception,
  although the first is in the window.
\<close>

theorem filter_upcoming_week_events_window:
  "(plus_days today 7 = Inr week_end \<longrightarrow>
      filter_upcoming_week_events U out today events =
        (if list_all (\<lambda>e. can_print out (start_time e)) events
         then Inr (filter (in_window U today week_end) events)
         else Inl UnicodeEncodeError) \<and>
      subseq (filter (in_window U today week_end) events) events \<and>
      (\<forall>e. e \<in> set (filter (in_window U today week_end) events) \<longleftrightarrow>
           e \<in> set events \<and>
           (\<exists>d. event_date U today (start_time e) = Inr (Some d) \<and>
                date_le today d \<and> date_le d week_end))) \<and>
   (d_year today \<le> 9998 \<longrightarrow> (\<exists>w. plus_days today 7 = Inr w)) \<and>
   (re_search U s = Some (day, month_str, Some y, tm) \<longrightarrow>
      event_date U today s =
        (case datetime_date (py_int U y) (month_number month_str) (py_int U day) of
           Inl e \<Rightarrow> Inl e
         | Inr d \<Rightarrow> Inr (Some d))) \<and>
   filter_upcoming_week_events U utf8_stdout (Date 2025 8 15)
     [sample_event (u ''20 Aug., 10:00 UTC''), sample_event (55296 # u '' TBA'')] =
     Inl UnicodeEncodeError \<and>
   in_window U (Date 2025 8 15) (Date 2025 8 22) (sample_event (u ''20 Aug., 10:00 UTC''))"
proof -
  have res: "filter_upcoming_week_events U out today events =
        (if list_all (\<lambda>e. can_print out (start_time e)) events
         then Inr (filter (in_window U today week_end) events)
         else Inl UnicodeEncodeError)"
    if "plus_days today 7 = Inr week_end"
    using that by (rule filter_upcoming_week_events_filter)
  have sub: "subseq (filter (in_window U today week_end) events) events"
    by simp
  have mem: "\<forall>e. e \<in> set (filter (in_window U today week_end) events) \<longleftrightarrow>
           e \<in> set events \<and>
           (\<exists>d. event_date U today (start_time e) = Inr (Some d) \<and>
                date_le today d \<and> date_le d week_end)"
    using in_window_iff by auto
  have bad: "\<not> can_print utf8_stdout (start_time (sample_event (55296 # u '' TBA'')))"
    by (simp add: can_print_def utf8_stdout_def sample_event_def)
  have raises: "filter_upcoming_week_events U utf8_stdout (Date 2025 8 15)
     [sample_event (u ''20 Aug., 10:00 UTC''), sample_event (55296 # u '' TBA'')] =
     Inl UnicodeEncodeError"
    using bad by (simp add: filter_upcoming_week_events_filter [OF week_2025_08_15])
  have win: "in_window U (Date 2025 8 15) (Date 2025 8 22) (sample_event (u ''20 Aug., 10:00 UTC''))"
    by (simp add: in_window_def sample_event_def event_date_def re_defs date_defs)
  show ?thesis
    using res sub mem plus_days_7_total [of today] raises win
      event_date_explicit_year [of U s day month_str y tm today]
    by blast
qed

theorem filter_upcoming_week_events_window_witness:
  "plus_days (Date 2025 8 15) 7 = Inr (Date 2025 8 22) \<and>
   d_year (Date 2025 8 15) \<le> 9998 \<and>
   re_search ascii_db (u ''20 Aug. 2031, 10:00 UTC'') =
     Some (u ''20'', u ''Aug'', Some (u ''2031''), u ''10:00'') \<and>
   event_date ascii_db (Date 2025 8 15) (u ''20 Aug. 2031, 10:00 UTC'') =
     (case datetime_date (py_int ascii_db (u ''2031'')) (month_number (u ''Aug''))
             (py_int ascii_db (u ''20'')) of
        Inl e \<Rightarrow> Inl e
      | Inr d \<Rightarrow> Inr (Some d)) \<and>
   filter_upcoming_week_events ascii_db utf8_stdout (Date 2025 8 15)
     [sample_event (u ''20 Aug., 10:00 UTC''), sample_event (u ''5 Jan., 10:00 UTC''),
      sample_event (u ''22 Aug. 2025, 10:00 UTC''), sample_event (u ''23 Aug. 2025, 10:00 UTC''),
      sample_event (u ''20 Aug. 2031, 10:00 UTC'')] =
   Inr [sample_event (u ''20 Aug., 10:00 UTC''), sample_event (u ''22 Aug. 2025, 10:00 UTC'')]"
proof -
  let ?evs = "[sample_event (u ''20 Aug., 10:00 UTC''), sample_event (u ''5 Jan., 10:00 UTC''),
      sample_event (u ''22 Aug. 2025, 10:00 UTC''), sample_event (u ''23 Aug. 2025, 10:00 UTC''),
      sample_event (u ''20 Aug. 2031, 10:00 UTC'')]"
  note h = week_2025_08_15
  have y: "d_year (Date 2025 8 15) \<le> 9998"
    by simp
  have m: "re_search ascii_db (u ''20 Aug. 2031, 10:00 UTC'') =
     Some (u ''20'', u ''Aug'', Some (u ''2031''), u ''10:00'')"
    by (simp add: re_defs)
  have p: "list_all (\<lambda>e. can_print utf8_stdout (start_time e)) ?evs"
    by (simp add: can_print_def sample_event_def)
  have w1: "in_window ascii_db (Date 2025 8 15) (Date 2025 8 22) (sample_event (u ''20 Aug., 10:00 UTC''))"
    by (simp add: in_window_def sample_event_def event_date_def re_defs date_defs)
  have w2: "\<not> in_window ascii_db (Date 2025 8 15) (Date 2025 8 22) (sample_event (u ''5 Jan., 10:00 UTC''))"
    by (simp add: in_window_def sample_event_def event_date_def re_defs date_defs)
  have w3: "in_window ascii_db (Date 2025 8 15) (Date 2025 8 22) (sample_event (u ''22 Aug. 2025, 10:00 UTC''))"
    by (simp add: in_window_def sample_event_def event_date_def re_defs date_defs)
  have w4: "\<not> in_window ascii_db (Date 2025 8 15) (Date 2025 8 22) (sample_event (u ''23 Aug. 2025, 10:00 UTC''))"
    by (simp add: in_window_def sample_event_def event_date_def re_defs date_defs)
  have w5: "\<not> in_window ascii_db (Date 2025 8 15) (Date 2025 8 22) (sample_event (u ''20 Aug. 2031, 10:00 UTC''))"
    by (simp add: in_window_def sample_event_def event_date_def re_defs date_defs)
  note t = filter_upcoming_week_events_window [of "Date 2025 8 15" "Date 2025 8 22" ascii_db
      utf8_stdout ?evs "u ''20 Aug. 2031, 10:00 UTC''" "u ''20''" "u ''Aug''" "u ''2031''" "u ''10:00''"]
  from t h have "filter_upcoming_week_events ascii_db utf8_stdout (Date 2025 8 15) ?evs =
        (if list_all (\<lambda>e. can_print utf8_stdout (start_time e)) ?evs
         then Inr (filter (in_window ascii_db (Date 2025 8 15) (Date 2025 8 22)) ?evs)
         else Inl UnicodeEncodeError)"
    by blast
  with p have "filter_upcoming_week_events ascii_db utf8_stdout (Date 2025 8 15) ?evs =
        Inr (filter (in_window ascii_db (Date 2025 8 15) (Date 2025 8 22)) ?evs)"
    by (simp only: if_True)
  then have r: "filter_upcoming_week_events ascii_db utf8_stdout (Date 2025 8 15) ?evs =
     Inr [sample_event (u ''20 Aug., 10:00 UTC''), sample_event (u ''22 Aug. 2025, 10:00 UTC'')]"
    using w1 w2 w3 w4 w5 by (simp only: filter.simps if_True if_False)
  from t m have e: "event_date ascii_db (Date 2025 8 15) (u ''20 Aug. 2031, 10:00 UTC'') =
     (case datetime_date (py_int ascii_db (u ''2031'')) (month_number (u ''Aug''))
             (py_int ascii_db (u ''20'')) of
        Inl e \<Rightarrow> Inl e
      | Inr d \<Rightarrow> Inr (Some d))"
    by blast
  show ?thesis
    using h y m e r by blast
qed

text \<open>
  C7. An event whose start text fails date resolution, because the pattern does not
  match or because the year, the month and the day are not a calendar date, is in no
  list that the filter returns. When its start text can be printed, the filter does
  with the event what it does without it: the other events are retained or not as they
  are without it. When its start text cannot be printed, the \<open>print\<close> of the handler
  raises and the exception leaves the function: with today = 2025-08-15 and a UTF-8
  \<open>stdout\<close>, the start text U+D800 \<open> TBA\<close>, which the pattern does not match, between
  two events of the window gives \<open>UnicodeEncodeError\<close>, while the two events alone are
  both returned.
\<close>

theorem filter_upcoming_week_events_failure_isolated:
  "(re_search U (start_time e) = None \<or> (\<exists>err. event_date U today (start_time e) = Inl err) \<longrightarrow>
      (\<forall>r. filter_upcoming_week_events U out today events = Inr r \<longrightarrow> e \<notin> set r) \<and>
      (can_print out (start_time e) \<longrightarrow>
         filter_upcoming_week_events U out today (xs @ e # ys) =
           filter_upcoming_week_events U out today (xs @ ys)) \<and>
      (\<not> can_print out (start_time e) \<and> plus_days today 7 = Inr week_end \<longrightarrow>
         filter_upcoming_week_events U out today (xs @ e # ys) = Inl UnicodeEncodeError)) \<and>
   re_search U (start_time (sample_event (55296 # u '' TBA''))) = None \<and>
   filter_upcoming_week_events U utf8_stdout (Date 2025 8 15)
     [sample_event (u ''20 Aug., 10:00 UTC''), sample_event (55296 # u '' TBA''),
      sample_event (u ''22 Aug. 2025, 10:00 UTC'')] = Inl UnicodeEncodeError \<and>
   filter_upcoming_week_events U utf8_stdout (Date 2025 8 15)
     [sample_event (u ''20 Aug., 10:00 UTC''), sample_event (u ''22 Aug. 2025, 10:00 UTC'')] =
     Inr [sample_event (u ''20 Aug., 10:00 UTC''), sample_event (u ''22 Aug. 2025, 10:00 UTC'')]"
proof -
  have out: "e \<notin> set r"
    if "re_search U (start_time e) = None \<or> (\<exists>err. event_date U today (start_time e) = Inl err)"
      and "filter_upcoming_week_events U out today events = Inr r" for r
    using filter_result_in_window [OF that(2)] not_in_window_failed [OF that(1)] by auto
  have same: "filter_upcoming_week_events U out today (xs @ e # ys) =
           filter_upcoming_week_events U out today (xs @ ys)"
    if "re_search U (start_time e) = None \<or> (\<exists>err. event_date U today (start_time e) = Inl err)"
      and "can_print out (start_time e)"
  proof (cases "plus_days today 7")
    case (Inl err)
    then show ?thesis
      by (simp add: filter_upcoming_week_events_def)
  next
    case (Inr w)
    show ?thesis
      using that(2) not_in_window_failed [OF that(1), of w]
      by (simp add: filter_upcoming_week_events_filter [OF Inr])
  qed
  have raise: "filter_upcoming_week_events U out today (xs @ e # ys) = Inl UnicodeEncodeError"
    if "\<not> can_print out (start_time e)" and "plus_days today 7 = Inr week_end"
    using that(1) by (simp add: filter_upcoming_week_events_filter [OF that(2)])
  have nomatch: "re_search U (start_time (sample_event (55296 # u '' TBA''))) = None"
    by (rule no_time_token_no_match) (simp add: sample_event_def)
  have bad: "\<not> can_print utf8_stdout (start_time (sample_event (55296 # u '' TBA'')))"
    by (simp add: can_print_def utf8_stdout_def sample_event_def)
  have ex1: "filter_upcoming_week_events U utf8_stdout (Date 2025 8 15)
     [sample_event (u ''20 Aug., 10:00 UTC''), sample_event (55296 # u '' TBA''),
      sample_event (u ''22 Aug. 2025, 10:00 UTC'')] = Inl UnicodeEncodeError"
    using bad by (simp add: filter_upcoming_week_events_filter [OF week_2025_08_15])
  have p: "list_all (\<lambda>e. can_print utf8_stdout (start_time e))
     [sample_event (u ''20 Aug., 10:00 UTC''), sample_event (u ''22 Aug. 2025, 10:00 UTC'')]"
    by (simp add: can_print_def sample_event_def)
  have w1: "in_window U (Date 2025 8 15) (Date 2025 8 22) (sample_event (u ''20 Aug., 10:00 UTC''))"
    by (simp add: in_window_def sample_event_def event_date_def re_defs date_defs)
  have w3: "in_window U (Date 2025 8 15) (Date 2025 8 22) (sample_event (u ''22 Aug. 2025, 10:00 UTC''))"
    by (simp add: in_window_def sample_event_def event_date_def re_defs date_defs)
  have ex2: "filter_upcoming_week_events U utf8_stdout (Date 2025 8 15)
     [sample_event (u ''20 Aug., 10:00 UTC''), sample_event (u ''22 Aug. 2025, 10:00 UTC'')] =
     Inr [sample_event (u ''20 Aug., 10:00 UTC''), sample_event (u ''22 Aug. 2025, 10:00 UTC'')]"
    using p w1 w3
    by (simp only: filter_upcoming_week_events_filter [OF week_2025_08_15] filter.simps if_True)
  show ?thesis
    using out same raise nomatch ex1 ex2 by blast
qed

theorem filter_upcoming_week_events_failure_isolated_witness:
  "event_date ascii_db (Date 2025 8 15)
     (start_time (sample_event (u ''31 Feb., 10:00 UTC''))) = Inl ValueError \<and>
   can_print utf8_stdout (start_time (sample_event (u ''31 Feb., 10:00 UTC''))) \<and>
   filter_upcoming_week_events ascii_db utf8_stdout (Date 2025 8 15)
     ([sample_event (u ''20 Aug., 10:00 UTC'')] @ sample_event (u ''31 Feb., 10:00 UTC'') #
      [sample_event (u ''22 Aug. 2025, 10:00 UTC'')]) =
   filter_upcoming_week_events ascii_db utf8_stdout (Date 2025 8 15)
     ([sample_event (u ''20 Aug., 10:00 UTC'')] @ [sample_event (u ''22 Aug. 2025, 10:00 UTC'')]) \<and>
   re_search ascii_db (start_time (sample_event (55296 # u '' TBA''))) = None \<and>
   \<not> can_print utf8_stdout (start_time (sample_event (55296 # u '' TBA''))) \<and>
   plus_days (Date 2025 8 15) 7 = Inr (Date 2025 8 22) \<and>
   filter_upcoming_week_events ascii_db utf8_stdout (Date 2025 8 15)
     ([sample_event (u ''20 Aug., 10:00 UTC'')] @ sample_event (55296 # u '' TBA'') #
      [sample_event (u ''22 Aug. 2025, 10:00 UTC'')]) = Inl UnicodeEncodeError"
proof -
  note h = week_2025_08_15
  have bad: "event_date ascii_db (Date 2025 8 15)
     (start_time (sample_event (u ''31 Feb., 10:00 UTC''))) = Inl ValueError"
    by (simp add: sample_event_def event_date_def re_defs date_defs)
  then have f1: "re_search ascii_db (start_time (sample_event (u ''31 Feb., 10:00 UTC''))) = None \<or>
    (\<exists>err. event_date ascii_db (Date 2025 8 15)
       (start_time (sample_event (u ''31 Feb., 10:00 UTC''))) = Inl err)"
    by blast
  have p1: "can_print utf8_stdout (start_time (sample_event (u ''31 Feb., 10:00 UTC'')))"
    by (simp add: can_print_def sample_event_def)
  have p2: "\<not> can_print utf8_stdout (start_time (sample_event (55296 # u '' TBA'')))"
    by (simp add: can_print_def utf8_stdout_def sample_event_def)
  from filter_upcoming_week_events_failure_isolated [of ascii_db
      "sample_event (u ''31 Feb., 10:00 UTC'')" "Date 2025 8 15" utf8_stdout "[]"
      "[sample_event (u ''20 Aug., 10:00 UTC'')]" "[sample_event (u ''22 Aug. 2025, 10:00 UTC'')]"
      "Date 2025 8 22"] f1 p1
  have a: "filter_upcoming_week_events ascii_db utf8_stdout (Date 2025 8 15)
     ([sample_event (u ''20 Aug., 10:00 UTC'')] @ sample_event (u ''31 Feb., 10:00 UTC'') #
      [sample_event (u ''22 Aug. 2025, 10:00 UTC'')]) =
   filter_upcoming_week_events ascii_db utf8_stdout (Date 2025 8 15)
     ([sample_event (u ''20 Aug., 10:00 UTC'')] @ [sample_event (u ''22 Aug. 2025, 10:00 UTC'')])"
    by blast
  note t = filter_upcoming_week_events_failure_isolated [of ascii_db
      "sample_event (55296 # u '' TBA'')" "Date 2025 8 15" utf8_stdout "[]"
      "[sample_event (u ''20 Aug., 10:00 UTC'')]" "[sample_event (u ''22 Aug. 2025, 10:00 UTC'')]"
      "Date 2025 8 22"]
  from t have n: "re_search ascii_db (start_time (sample_event (55296 # u '' TBA''))) = None"
    by blast
  with t p2 h have b: "filter_upcoming_week_events ascii_db utf8_stdout (Date 2025 8 15)
     ([sample_event (u ''20 Aug., 10:00 UTC'')] @ sample_event (55296 # u '' TBA'') #
      [sample_event (u ''22 Aug. 2025, 10:00 UTC'')]) = Inl UnicodeEncodeError"
    by blast
  show ?thesis
    using bad p1 a n p2 h b by blast
qed

subsection \<open>The month table\<close>

text \<open>
  C3. Only the first three characters of the month token are looked up: the month of a
  token is the month of its first three characters. The table has the twelve English
  abbreviations \<open>Jan\<close> .. \<open>Dec\<close> with the numbers 1 .. 12, compared character by
  character (\<open>aug\<close> and \<open>AUG\<close> are not \<open>Aug\<close>), and every token whose first three
  characters are none of the twelve has month 1.
\<close>

theorem month_number_first_three:
  "month_number tok = month_number (take 3 tok) \<and>
   (take 3 tok \<notin> set [u ''Jan'', u ''Feb'', u ''Mar'', u ''Apr'', u ''May'', u ''Jun'',
                       u ''Jul'', u ''Aug'', u ''Sep'', u ''Oct'', u ''Nov'', u ''Dec'']
      \<longrightarrow> month_number tok = 1) \<and>
   map fst month_names = [u ''Jan'', u ''Feb'', u ''Mar'', u ''Apr'', u ''May'', u ''Jun'',
                          u ''Jul'', u ''Aug'', u ''Sep'', u ''Oct'', u ''Nov'', u ''Dec''] \<and>
   map month_number (map fst month_names) = [1, 2, 3, 4, 5, 6, 7, 8, 9, 10, 11, 12] \<and>
   month_number (u ''August'') = 8 \<and> month_number (u ''aug'') = 1 \<and> month_number (u ''AUG'') = 1"
proof -
  have keys: "map fst month_names = [u ''Jan'', u ''Feb'', u ''Mar'', u ''Apr'', u ''May'', u ''Jun'',
                          u ''Jul'', u ''Aug'', u ''Sep'', u ''Oct'', u ''Nov'', u ''Dec'']"
    by (simp add: month_names_def)
  have first: "month_number tok = month_number (take 3 tok)"
    by (simp add: month_number_def)
  have other: "month_number tok = 1"
    if "take 3 tok \<notin> set [u ''Jan'', u ''Feb'', u ''Mar'', u ''Apr'', u ''May'', u ''Jun'',
                       u ''Jul'', u ''Aug'', u ''Sep'', u ''Oct'', u ''Nov'', u ''Dec'']"
  proof -
    from that have "take 3 tok \<notin> fst ` set month_names"
      using keys by (metis list.set_map)
    then have "map_of month_names (take 3 tok) = None"
      by (simp add: map_of_eq_None_iff)
    then show ?thesis
      by (simp add: month_number_def)
  qed
  have vals: "map month_number (map fst month_names) = [1, 2, 3, 4, 5, 6, 7, 8, 9, 10, 11, 12]"
    by (simp add: month_number_def month_names_def)
  have ex: "month_number (u ''August'') = 8 \<and> month_number (u ''aug'') = 1 \<and> month_number (u ''AUG'') = 1"
    by (simp add: month_number_def month_names_def)
  show ?thesis
    using keys first other vals ex by blast
qed

theorem month_number_first_three_witness:
  "take 3 (u ''Sept'') = u ''Sep'' \<and> month_number (u ''Sept'') = 9 \<and>
   take 3 (u ''Okt'') \<notin> set [u ''Jan'', u ''Feb'', u ''Mar'', u ''Apr'', u ''May'', u ''Jun'',
                       u ''Jul'', u ''Aug'', u ''Sep'', u ''Oct'', u ''Nov'', u ''Dec''] \<and>
   month_number (u ''Okt'') = 1"
proof -
  have a: "take 3 (u ''Okt'') \<notin> set [u ''Jan'', u ''Feb'', u ''Mar'', u ''Apr'', u ''May'', u ''Jun'',
                       u ''Jul'', u ''Aug'', u ''Sep'', u ''Oct'', u ''Nov'', u ''Dec'']"
    by simp
  have b: "take 3 (u ''Sept'') = u ''Sep''"
    by simp
  have c: "month_number (u ''Sep'') = 9"
    by (simp add: month_number_def month_names_def)
  show ?thesis
    using a b c month_number_first_three [of "u ''Okt''"] month_number_first_three [of "u ''Sept''"]
    by simp
qed

subsection \<open>The year of a start text without a year\<close>

lemma event_date_yearless:
  assumes "re_search U s = Some (day, month_str, None, tm)"
    and "datetime_date (d_year today) (month_number month_str) (py_int U day) = Inr c"
  shows "event_date U today s =
           (case datetime_date (if date_lt c today then d_year today + 1 else d_year today)
                   (month_number month_str) (py_int U day) of
              Inl e \<Rightarrow> Inl e
            | Inr d \<Rightarrow> Inr (Some d))"
  using assms by (simp add: event_date_def resolve_year_def)

text \<open>
  C1. When the pattern matches a start text and group 3 (the year) is empty, which is
  the case for every matching text without a run of four digits, the filter builds the
  candidate date from the current year, the month of the month token and the day. When
  the candidate is a date \<open>c\<close>, the year is the current year + 1 if \<open>c\<close> is strictly
  before today and the current year otherwise, and the date of the event is built from
  that year, the month and the day. When the candidate is not a calendar date, the
  \<open>ValueError\<close> leaves the body of the \<open>try\<close>. With today = 2025-08-15, the text
  \<open>20 Aug., 10:00 UTC\<close> gives 2025-08-20 and \<open>5 Jan., 10:00 UTC\<close> gives 2026-01-05.
\<close>

theorem yearless_start_text_year:
  "(re_search U s = Some (day, month_str, year, tm) \<and> \<not> has_four_digits U s \<longrightarrow> year = None) \<and>
   (re_search U s = Some (day, month_str, None, tm) \<longrightarrow>
      (\<forall>c. datetime_date (d_year today) (month_number month_str) (py_int U day) = Inr c \<longrightarrow>
           resolve_year U today (month_number month_str) day None =
             Inr (if date_lt c today then d_year today + 1 else d_year today) \<and>
           event_date U today s =
             (case datetime_date (if date_lt c today then d_year today + 1 else d_year today)
                     (month_number month_str) (py_int U day) of
                Inl e \<Rightarrow> Inl e
              | Inr d \<Rightarrow> Inr (Some d))) \<and>
      (\<forall>err. datetime_date (d_year today) (month_number month_str) (py_int U day) = Inl err \<longrightarrow>
           event_date U today s = Inl err)) \<and>
   event_date U (Date 2025 8 15) (u ''20 Aug., 10:00 UTC'') = Inr (Some (Date 2025 8 20)) \<and>
   event_date U (Date 2025 8 15) (u ''5 Jan., 10:00 UTC'') = Inr (Some (Date 2026 1 5))"
proof -
  have none: "year = None"
    if "re_search U s = Some (day, month_str, year, tm)" and "\<not> has_four_digits U s"
    using that re_search_year [of U s day month_str _ tm] by (cases year) auto
  have year: "resolve_year U today (month_number month_str) day None =
             Inr (if date_lt c today then d_year today + 1 else d_year today)"
    if "datetime_date (d_year today) (month_number month_str) (py_int U day) = Inr c" for c
    using that by (simp add: resolve_year_def)
  have raise: "event_date U today s = Inl err"
    if "re_search U s = Some (day, month_str, None, tm)"
      and "datetime_date (d_year today) (month_number month_str) (py_int U day) = Inl err" for err
    using that by (simp add: event_date_def resolve_year_def)
  have ex1: "event_date U (Date 2025 8 15) (u ''20 Aug., 10:00 UTC'') = Inr (Some (Date 2025 8 20))"
    by (simp add: event_date_def re_defs date_defs)
  have ex2: "event_date U (Date 2025 8 15) (u ''5 Jan., 10:00 UTC'') = Inr (Some (Date 2026 1 5))"
    by (simp add: event_date_def re_defs date_defs)
  show ?thesis
    using none year raise ex1 ex2 event_date_yearless [of U s day month_str tm today]
    by blast
qed

theorem yearless_start_text_year_witness:
  "re_search ascii_db (u ''5 Jan., 10:00 UTC'') = Some (u ''5'', u ''Jan'', None, u ''10:00'') \<and>
   \<not> has_four_digits ascii_db (u ''5 Jan., 10:00 UTC'') \<and>
   datetime_date (d_year (Date 2025 8 15)) (month_number (u ''Jan'')) (py_int ascii_db (u ''5'')) =
     Inr (Date 2025 1 5) \<and>
   date_lt (Date 2025 1 5) (Date 2025 8 15) \<and>
   resolve_year ascii_db (Date 2025 8 15) (month_number (u ''Jan'')) (u ''5'') None = Inr 2026 \<and>
   event_date ascii_db (Date 2025 8 15) (u ''5 Jan., 10:00 UTC'') =
     (case datetime_date 2026 (month_number (u ''Jan'')) (py_int ascii_db (u ''5'')) of
        Inl e \<Rightarrow> Inl e
      | Inr d \<Rightarrow> Inr (Some d))"
proof -
  have m: "re_search ascii_db (u ''5 Jan., 10:00 UTC'') = Some (u ''5'', u ''Jan'', None, u ''10:00'')"
    by (simp add: re_defs)
  have n: "\<not> has_four_digits ascii_db (u ''5 Jan., 10:00 UTC'')"
    by (simp add: is_digit_def)
  have c: "datetime_date (d_year (Date 2025 8 15)) (month_number (u ''Jan'')) (py_int ascii_db (u ''5'')) =
     Inr (Date 2025 1 5)"
    by (simp add: date_defs)
  have l: "date_lt (Date 2025 1 5) (Date 2025 8 15)"
    by (simp add: date_lt_def)
  have y: "d_year (Date 2025 8 15) + 1 = 2026"
    by simp
  from yearless_start_text_year [of ascii_db "u ''5 Jan., 10:00 UTC''" "u ''5''" "u ''Jan''" None
      "u ''10:00''" "Date 2025 8 15"] m c
  have "resolve_year ascii_db (Date 2025 8 15) (month_number (u ''Jan'')) (u ''5'') None =
          Inr (if date_lt (Date 2025 1 5) (Date 2025 8 15)
               then d_year (Date 2025 8 15) + 1 else d_year (Date 2025 8 15)) \<and>
        event_date ascii_db (Date 2025 8 15) (u ''5 Jan., 10:00 UTC'') =
          (case datetime_date (if date_lt (Date 2025 1 5) (Date 2025 8 15)
                  then d_year (Date 2025 8 15) + 1 else d_year (Date 2025 8 15))
                  (month_number (u ''Jan'')) (py_int ascii_db (u ''5'')) of
             Inl e \<Rightarrow> Inl e
           | Inr d \<Rightarrow> Inr (Some d))"
    by blast
  then show ?thesis
    using m n c l by (simp only: y if_True simp_thms)
qed

subsection \<open>The time token is mandatory\<close>

text \<open>
  C10. When the start text of an event has no time token of the shape \<open>H:MM\<close> or
  \<open>HH:MM\<close>, the pattern does not match it and the event is in no result of the filter,
  whatever its date: with today = 2025-08-15 the start text \<open>20 Aug. 2025\<close> is dropped,
  while \<open>20 Aug. 2025, 10:00 UTC\<close> resolves to 2025-08-20, inside the window.
\<close>

theorem missing_time_token_excluded:
  "(\<not> has_time_token U (start_time e) \<longrightarrow>
      re_search U (start_time e) = None \<and>
      (\<forall>out today events r.
         filter_upcoming_week_events U out today events = Inr r \<longrightarrow> e \<notin> set r)) \<and>
   filter_upcoming_week_events U out (Date 2025 8 15) [sample_event (u ''20 Aug. 2025'')] = Inr [] \<and>
   filter_upcoming_week_events U out (Date 2025 8 15) [sample_event (u ''20 Aug. 2025, 10:00 UTC'')] =
     Inr [sample_event (u ''20 Aug. 2025, 10:00 UTC'')]"
proof -
  note h = week_2025_08_15
  have nomatch: "re_search U (start_time e) = None" if "\<not> has_time_token U (start_time e)"
    using that by (rule no_time_token_no_match)
  have out: "e \<notin> set r"
    if "\<not> has_time_token U (start_time e)"
      and "filter_upcoming_week_events U out today events = Inr r"
    for out today events r
    using filter_result_in_window [OF that(2)] not_in_window_failed [of U e today]
      nomatch [OF that(1)]
    by auto
  have p1: "list_all (\<lambda>e. can_print out (start_time e)) [sample_event (u ''20 Aug. 2025'')]"
    by (simp add: can_print_def sample_event_def)
  have p2: "list_all (\<lambda>e. can_print out (start_time e))
              [sample_event (u ''20 Aug. 2025, 10:00 UTC'')]"
    by (simp add: can_print_def sample_event_def)
  have w1: "\<not> in_window U (Date 2025 8 15) (Date 2025 8 22) (sample_event (u ''20 Aug. 2025''))"
    by (simp add: in_window_def sample_event_def event_date_def re_defs)
  have w2: "in_window U (Date 2025 8 15) (Date 2025 8 22)
              (sample_event (u ''20 Aug. 2025, 10:00 UTC''))"
    by (simp add: in_window_def sample_event_def event_date_def re_defs date_defs)
  have ex1: "filter_upcoming_week_events U out (Date 2025 8 15) [sample_event (u ''20 Aug. 2025'')] = Inr []"
    using p1 w1 by (simp only: filter_upcoming_week_events_filter [OF h] filter.simps if_True if_False)
  have ex2: "filter_upcoming_week_events U out (Date 2025 8 15)
               [sample_event (u ''20 Aug. 2025, 10:00 UTC'')] =
             Inr [sample_event (u ''20 Aug. 2025, 10:00 UTC'')]"
    using p2 w2 by (simp only: filter_upcoming_week_events_filter [OF h] filter.simps if_True if_False)
  show ?thesis
    using nomatch out ex1 ex2 by blast
qed

theorem missing_time_token_excluded_witness:
  "\<not> has_time_token ascii_db (start_time (sample_event (u ''20 Aug. 2025''))) \<and>
   re_search ascii_db (start_time (sample_event (u ''20 Aug. 2025''))) = None \<and>
   filter_upcoming_week_events ascii_db utf8_stdout (Date 2025 8 15)
     [sample_event (u ''20 Aug., 10:00 UTC''), sample_event (u ''20 Aug. 2025'')] =
     Inr [sample_event (u ''20 Aug., 10:00 UTC'')] \<and>
   sample_event (u ''20 Aug. 2025'') \<notin> set [sample_event (u ''20 Aug., 10:00 UTC'')]"
proof -
  note h = week_2025_08_15
  have t: "\<not> has_time_token ascii_db (start_time (sample_event (u ''20 Aug. 2025'')))"
    by (simp add: sample_event_def is_digit_def)
  have p: "list_all (\<lambda>e. can_print utf8_stdout (start_time e))
     [sample_event (u ''20 Aug., 10:00 UTC''), sample_event (u ''20 Aug. 2025'')]"
    by (simp add: can_print_def sample_event_def)
  have w1: "in_window ascii_db (Date 2025 8 15) (Date 2025 8 22) (sample_event (u ''20 Aug., 10:00 UTC''))"
    by (simp add: in_window_def sample_event_def event_date_def re_defs date_defs)
  have w2: "\<not> in_window ascii_db (Date 2025 8 15) (Date 2025 8 22) (sample_event (u ''20 Aug. 2025''))"
    by (simp add: in_window_def sample_event_def event_date_def re_defs date_defs)
  have r: "filter_upcoming_week_events ascii_db utf8_stdout (Date 2025 8 15)
     [sample_event (u ''20 Aug., 10:00 UTC''), sample_event (u ''20 Aug. 2025'')] =
     Inr [sample_event (u ''20 Aug., 10:00 UTC'')]"
    using p w1 w2
    by (simp only: filter_upcoming_week_events_filter [OF h] filter.simps if_True if_False)
  from missing_time_token_excluded [of ascii_db "sample_event (u ''20 Aug. 2025'')"] t
  have "re_search ascii_db (start_time (sample_event (u ''20 Aug. 2025''))) = None"
    and "\<forall>out today events r. filter_upcoming_week_events ascii_db out today events = Inr r \<longrightarrow>
           sample_event (u ''20 Aug. 2025'') \<notin> set r"
    by blast+
  with r t show ?thesis
    by blast
qed

section \<open>Properties of the parser\<close>

lemma parse_rows_map_filter: "parse_rows acc rows = acc @ List.map_filter parse_row rows"
  by (induction rows arbitrary: acc) (auto simp: map_filter_simps split: option.splits)

lemma map_filter_append: "List.map_filter f (xs @ ys) = List.map_filter f xs @ List.map_filter f ys"
  by (simp add: List.map_filter_def)

lemma parse_row_valid:
  assumes "4 \<le> length (find_all (u ''td'') row)"
    and "find_node (u ''a'') (find_all (u ''td'') row ! 0) = Some title_link"
  shows "\<exists>e. parse_row row = Some e \<and> url e = base_url @ get_attr title_link (u ''href'') []"
  using assms unfolding parse_row_def Let_def by (simp del: map_map list.map)

lemma parse_row_skipped:
  assumes "length (find_all (u ''td'') row) < 4 \<or>
           find_node (u ''a'') (find_all (u ''td'') row ! 0) = None"
  shows "parse_row row = None"
  using assms unfolding parse_row_def Let_def by (auto simp del: map_map list.map)

text \<open>
  C4. A row with at least four \<open>td\<close> cells whose first cell contains a link yields
  exactly one event, and its url is the origin \<open>https://ctftime.org\<close> followed by the
  \<open>href\<close> of the link (the empty string when the link has none). A row with fewer than
  four cells, or with no link in its first cell, yields no event. The events of a list
  of rows are the events of its rows in the order of the rows: a skipped row changes
  nothing in the events of the others, and the event of a row stands between the events
  of the rows before it and those of the rows after it.
\<close>

theorem parse_events_rows:
  "(4 \<le> length (find_all (u ''td'') row) \<and>
    find_node (u ''a'') (find_all (u ''td'') row ! 0) = Some title_link \<longrightarrow>
      (\<exists>e. parse_row row = Some e \<and> url e = base_url @ get_attr title_link (u ''href'') [] \<and>
           parse_rows [] [row] = [e])) \<and>
   (length (find_all (u ''td'') row) < 4 \<or>
    find_node (u ''a'') (find_all (u ''td'') row ! 0) = None \<longrightarrow>
      parse_row row = None \<and> parse_rows [] [row] = [] \<and>
      parse_rows [] (xs @ row # ys) = parse_rows [] (xs @ ys)) \<and>
   (\<forall>e. parse_row row = Some e \<longrightarrow>
      parse_rows [] (xs @ row # ys) = parse_rows [] xs @ e # parse_rows [] ys) \<and>
   parse_rows [] rows = List.map_filter parse_row rows \<and>
   parse_events (Some table) = List.map_filter parse_row (table_rows table) \<and>
   base_url = u ''https://ctftime.org''"
proof -
  have valid: "\<exists>e. parse_row row = Some e \<and> url e = base_url @ get_attr title_link (u ''href'') [] \<and>
           parse_rows [] [row] = [e]"
    if "4 \<le> length (find_all (u ''td'') row)"
      and "find_node (u ''a'') (find_all (u ''td'') row ! 0) = Some title_link"
    using parse_row_valid [OF that] by auto
  have skipped: "parse_row row = None \<and> parse_rows [] [row] = [] \<and>
      parse_rows [] (xs @ row # ys) = parse_rows [] (xs @ ys)"
    if "length (find_all (u ''td'') row) < 4 \<or>
        find_node (u ''a'') (find_all (u ''td'') row ! 0) = None"
    using parse_row_skipped [OF that]
    by (simp add: parse_rows_map_filter map_filter_append map_filter_simps)
  have kept: "parse_rows [] (xs @ row # ys) = parse_rows [] xs @ e # parse_rows [] ys"
    if "parse_row row = Some e" for e
    using that by (simp add: parse_rows_map_filter map_filter_append map_filter_simps)
  have all: "parse_rows [] rows = List.map_filter parse_row rows"
    by (simp add: parse_rows_map_filter)
  have tbl: "parse_events (Some table) = List.map_filter parse_row (table_rows table)"
    by (simp add: parse_events_def parse_rows_map_filter)
  have origin: "base_url = u ''https://ctftime.org''"
    by (simp add: base_url_def)
  show ?thesis
    using valid skipped kept all tbl origin by blast
qed

lemmas dom_defs = find_all_def find_node_def descendants_def

theorem parse_events_rows_witness:
  "4 \<le> length (find_all (u ''td'') sample_row) \<and>
   find_node (u ''a'') (find_all (u ''td'') sample_row ! 0) =
     Some (Tag (u ''a'') [(u ''href'', u ''/event/2800'')] [NavigableString (u ''Alpha CTF'')]) \<and>
   length (find_all (u ''td'') header_row) < 4 \<and>
   parse_rows [] [header_row, sample_row, header_row] = parse_rows [] [sample_row] \<and>
   (\<exists>e. parse_rows [] [sample_row] = [e] \<and> url e = u ''https://ctftime.org/event/2800'')"
proof -
  let ?link = "Tag (u ''a'') [(u ''href'', u ''/event/2800'')] [NavigableString (u ''Alpha CTF'')]"
  have a: "4 \<le> length (find_all (u ''td'') sample_row)"
    by (simp add: sample_row_def dom_defs)
  have b: "find_node (u ''a'') (find_all (u ''td'') sample_row ! 0) = Some ?link"
    by (simp add: sample_row_def dom_defs)
  have c: "length (find_all (u ''td'') header_row) < 4"
    by (simp add: header_row_def dom_defs)
  have d: "base_url @ get_attr ?link (u ''href'') [] = u ''https://ctftime.org/event/2800''"
    by (simp add: base_url_def)
  from parse_events_rows [of sample_row ?link "[]" "[]"] a b
  obtain e where e: "parse_row sample_row = Some e"
    "url e = base_url @ get_attr ?link (u ''href'') []" "parse_rows [] [sample_row] = [e]"
    by blast
  from parse_events_rows [of header_row _ "[]" "[sample_row, header_row]"] c
  have "parse_rows [] ([] @ header_row # [sample_row, header_row]) =
        parse_rows [] ([] @ [sample_row, header_row])"
    by blast
  moreover from parse_events_rows [of header_row _ "[sample_row]" "[]"] c
  have "parse_rows [] ([sample_row] @ header_row # []) = parse_rows [] ([sample_row] @ [])"
    by blast
  ultimately have f: "parse_rows [] [header_row, sample_row, header_row] = parse_rows [] [sample_row]"
    by simp
  show ?thesis
    using a b c f e d by simp
qed

section \<open>Properties of the fetcher\<close>



section \<open>Properties of the notifier\<close>

lemma add_event_fields_fields:
  "embed_fields (add_event_fields e events) = embed_fields e @ map event_field events"
  by (induction events arbitrary: e) (auto simp: add_field_def)

lemma send_ctf_notification_fields:
  "embed_fields (send_ctf_notification events) =
     map event_field (take 10 events) @
     (if 10 < length events then [note_field (length events)] else [])"
  by (simp add: send_ctf_notification_def Let_def add_event_fields_fields add_field_def
        del: map_map list.map)

lemma note_two: "py_str (int 12 - 10) = u ''2''"
  by (simp add: py_str_def str_nat.simps [of 2])

text \<open>
  C8. For \<open>n\<close> events the message has the fields of the first \<open>min n 10\<close> events, in
  their order, followed, exactly when \<open>n > 10\<close>, by one note whose text says
  \<open>n - 10\<close> more; a note is never the field of an event. With 12 events there are 10
  event fields and the note \<open>And 2 more CTFs! ...\<close>.
\<close>

theorem notification_fields:
  "embed_fields (send_ctf_notification events) =
     map event_field (take 10 events) @
     (if 10 < length events then [note_field (length events)] else []) \<and>
   length (embed_fields (send_ctf_notification events)) =
     min (length events) 10 + (if 10 < length events then 1 else 0) \<and>
   (\<forall>i < min (length events) 10.
      embed_fields (send_ctf_notification events) ! i = event_field (events ! i)) \<and>
   field_value (note_field n) =
     u ''And '' @ py_str (int n - 10) @
     u '' more CTFs! Check [CTFTime](https://ctftime.org/event/list/upcoming) for the full list.'' \<and>
   event_field ev \<noteq> note_field n \<and>
   (length events = 12 \<longrightarrow>
      length (embed_fields (send_ctf_notification events)) = 11 \<and>
      embed_fields (send_ctf_notification events) ! 10 = note_field 12 \<and>
      field_value (note_field 12) =
        u ''And 2 more CTFs! Check [CTFTime](https://ctftime.org/event/list/upcoming) for the full list.'')"
proof -
  let ?fs = "embed_fields (send_ctf_notification events)"
  have fs: "?fs = map event_field (take 10 events) @
     (if 10 < length events then [note_field (length events)] else [])"
    by (rule send_ctf_notification_fields)
  have len: "length ?fs = min (length events) 10 + (if 10 < length events then 1 else 0)"
    by (simp add: fs)
  have nth: "\<forall>i < min (length events) 10. ?fs ! i = event_field (events ! i)"
    by (simp add: fs nth_append)
  have notev: "field_value (note_field n) =
     u ''And '' @ py_str (int n - 10) @
     u '' more CTFs! Check [CTFTime](https://ctftime.org/event/list/upcoming) for the full list.''"
    by (simp add: note_field_def events_url_def base_url_def)
  have differ: "event_field ev \<noteq> note_field n"
  proof
    assume "event_field ev = note_field n"
    then have "field_name (event_field ev) = field_name (note_field n)"
      by simp
    then show False
      by (simp add: event_field_def note_field_def)
  qed
  have twelve: "length ?fs = 11 \<and> ?fs ! 10 = note_field 12 \<and>
      field_value (note_field 12) =
        u ''And 2 more CTFs! Check [CTFTime](https://ctftime.org/event/list/upcoming) for the full list.''"
    if "length events = 12"
  proof -
    have "?fs ! 10 = note_field 12"
      using that by (simp add: fs nth_append)
    moreover have "field_value (note_field 12) =
        u ''And 2 more CTFs! Check [CTFTime](https://ctftime.org/event/list/upcoming) for the full list.''"
      using note_two by (simp add: note_field_def events_url_def base_url_def)
    ultimately show ?thesis
      using that len by simp
  qed
  show ?thesis
    using fs len nth notev differ twelve by blast
qed

theorem notification_fields_witness:
  "length (replicate 12 (sample_event (u ''20 Aug., 10:00 UTC''))) = 12 \<and>
   (3::nat) < min (length (replicate 12 (sample_event (u ''20 Aug., 10:00 UTC'')))) 10 \<and>
   embed_fields (send_ctf_notification (replicate 12 (sample_event (u ''20 Aug., 10:00 UTC'')))) ! 3 =
     event_field (sample_event (u ''20 Aug., 10:00 UTC'')) \<and>
   length (embed_fields (send_ctf_notification (replicate 12 (sample_event (u ''20 Aug., 10:00 UTC''))))) = 11 \<and>
   embed_fields (send_ctf_notification (replicate 12 (sample_event (u ''20 Aug., 10:00 UTC'')))) ! 10 =
     note_field 12"
proof -
  let ?evs = "replicate 12 (sample_event (u ''20 Aug., 10:00 UTC''))"
  have l: "length ?evs = 12"
    by simp
  have i: "(3::nat) < min (length ?evs) 10"
    by simp
  have n: "?evs ! 3 = sample_event (u ''20 Aug., 10:00 UTC'')"
    by simp
  from notification_fields [of ?evs] l
  have "length (embed_fields (send_ctf_notification ?evs)) = 11"
    and "embed_fields (send_ctf_notification ?evs) ! 10 = note_field 12"
    and "\<forall>i < min (length ?evs) 10.
           embed_fields (send_ctf_notification ?evs) ! i = event_field (?evs ! i)"
    by blast+
  then show ?thesis
    using l i n by (metis)
qed

end
